theory Spec2Isabelle
  imports Main
begin

section \<open>Strings: the library functions \<open>main.go\<close> calls\<close>

text \<open>
  A Go string is a sequence of bytes, here a \<^typ>\<open>string\<close> (a list of 8-bit
  \<^typ>\<open>char\<close>s). A code point beyond ASCII is the bytes of its UTF-8 encoding.
\<close>

definition nl :: char where
  "nl = CHR 0x0A"

definition tab :: char where
  "tab = CHR 0x09"

text \<open>
  \<^verbatim>\<open>strings.Split(s, "\n")\<close>: the pieces between the newlines, one more piece than
  there are newlines; the empty text is one empty piece.
\<close>

fun Split :: "string \<Rightarrow> string list" where
  "Split [] = [[]]"
| "Split (c # cs) =
     (if c = nl then [] # Split cs
      else (case Split cs of [] \<Rightarrow> [[c]] | l # ls \<Rightarrow> (c # l) # ls))"

text \<open>
  \<^verbatim>\<open>strings.TrimSpace\<close> removes the leading and the trailing white space, as
  \<^verbatim>\<open>unicode.IsSpace\<close> defines it: the code points of the Unicode property
  White\_Space (of Unicode 6.0, the tables of the Go releases that have
  \<^verbatim>\<open>os.Error\<close>). \<open>spaces\<close> lists their UTF-8 encodings. A white-space code point at
  the start (the end) of a string is exactly one of these byte sequences as a prefix
  (a suffix), so trimming is dropping such prefixes and suffixes.
\<close>

definition spaces :: "string list" where
  "spaces =
    [[CHR 0x09], [CHR 0x0A], [CHR 0x0B], [CHR 0x0C], [CHR 0x0D], [CHR 0x20],
     [CHR 0xC2, CHR 0x85], [CHR 0xC2, CHR 0xA0],
     [CHR 0xE1, CHR 0x9A, CHR 0x80], [CHR 0xE1, CHR 0xA0, CHR 0x8E],
     [CHR 0xE2, CHR 0x80, CHR 0x80], [CHR 0xE2, CHR 0x80, CHR 0x81],
     [CHR 0xE2, CHR 0x80, CHR 0x82], [CHR 0xE2, CHR 0x80, CHR 0x83],
     [CHR 0xE2, CHR 0x80, CHR 0x84], [CHR 0xE2, CHR 0x80, CHR 0x85],
     [CHR 0xE2, CHR 0x80, CHR 0x86], [CHR 0xE2, CHR 0x80, CHR 0x87],
     [CHR 0xE2, CHR 0x80, CHR 0x88], [CHR 0xE2, CHR 0x80, CHR 0x89],
     [CHR 0xE2, CHR 0x80, CHR 0x8A], [CHR 0xE2, CHR 0x80, CHR 0xA8],
     [CHR 0xE2, CHR 0x80, CHR 0xA9], [CHR 0xE2, CHR 0x80, CHR 0xAF],
     [CHR 0xE2, CHR 0x81, CHR 0x9F], [CHR 0xE3, CHR 0x80, CHR 0x80]]"

fun starts_with :: "string \<Rightarrow> string \<Rightarrow> bool" where
  "starts_with [] s = True"
| "starts_with (p # ps) [] = False"
| "starts_with (p # ps) (c # cs) = (p = c \<and> starts_with ps cs)"

text \<open>The length of the white-space code point \<open>s\<close> starts with, 0 when there is none.\<close>

fun space_len :: "string list \<Rightarrow> string \<Rightarrow> nat" where
  "space_len [] s = 0"
| "space_len (w # ws) s = (if starts_with w s then length w else space_len ws s)"

function trim_front :: "string list \<Rightarrow> string \<Rightarrow> string" where
  "trim_front ws s =
     (if space_len ws s = 0 \<or> s = [] then s else trim_front ws (drop (space_len ws s) s))"
  by pat_completeness auto
termination
  by (relation "measure (\<lambda>(ws, s). length s)") auto

declare trim_front.simps [simp del]

definition TrimSpace :: "string \<Rightarrow> string" where
  "TrimSpace s = rev (trim_front (map rev spaces) (rev (trim_front spaces s)))"

section \<open>Regular expressions\<close>

text \<open>
  The three patterns of \<open>main.go\<close> are sequences of literals, one-or-more repetitions
  of a character class, and capturing groups around such a repetition. A class is a
  bracket expression: the listed characters, or (with \<open>^\<close>) all the others. A
  negated class matches a whole code point; under \<open>+\<close> that is the same as matching
  its bytes one by one, since no byte of a longer UTF-8 encoding is an ASCII letter.
\<close>

datatype cclass = Chars string | NotChars string

fun in_class :: "cclass \<Rightarrow> char \<Rightarrow> bool" where
  "in_class (Chars cs) c = (c \<in> set cs)"
| "in_class (NotChars cs) c = (c \<notin> set cs)"

datatype item = Lit string | Plus cclass | Group cclass

type_synonym regexp = "item list"

text \<open>
  \<open>plus_splits c [] s\<close>: every way \<open>c+\<close> matches at the start of \<open>s\<close>, as the pair
  of the text taken and the text left, the longest first.
\<close>

fun plus_splits :: "cclass \<Rightarrow> string \<Rightarrow> string \<Rightarrow> (string \<times> string) list" where
  "plus_splits c acc [] = []"
| "plus_splits c acc (x # xs) =
     (if in_class c x then plus_splits c (acc @ [x]) xs @ [(acc @ [x], xs)] else [])"

text \<open>
  \<open>match_here re s\<close>: every way \<open>re\<close> matches at the start of \<open>s\<close>, as the captured
  groups and the text left after the match, in the order a backtracking matcher with
  greedy repetition finds them.
\<close>

fun match_here :: "regexp \<Rightarrow> string \<Rightarrow> (string list \<times> string) list" where
  "match_here [] s = [([], s)]"
| "match_here (Lit l # re) s =
     (if starts_with l s then match_here re (drop (length l) s) else [])"
| "match_here (Plus c # re) s =
     concat (map (\<lambda>(m, r). match_here re r) (plus_splits c [] s))"
| "match_here (Group c # re) s =
     concat (map (\<lambda>(m, r). map (\<lambda>(caps, r'). (m # caps, r')) (match_here re r))
                 (plus_splits c [] s))"

text \<open>
  \<^verbatim>\<open>FindStringSubmatch\<close>: the leftmost match, as the matched text followed by the
  captured groups; the empty slice (nil) when there is no match. At the leftmost start
  the first match of \<open>match_here\<close> is taken; for the patterns of this program there is
  never a second one (\<open>match_here_deterministic\<close> below), so the leftmost-longest
  and the leftmost-first discipline agree.
\<close>

fun FindStringSubmatch :: "regexp \<Rightarrow> string \<Rightarrow> string list" where
  "FindStringSubmatch re [] =
     (case match_here re [] of [] \<Rightarrow> [] | (caps, r) # ms \<Rightarrow> [] # caps)"
| "FindStringSubmatch re (c # cs) =
     (case match_here re (c # cs) of
        [] \<Rightarrow> FindStringSubmatch re cs
      | (caps, r) # ms \<Rightarrow> take (length (c # cs) - length r) (c # cs) # caps)"

definition MatchString :: "regexp \<Rightarrow> string \<Rightarrow> bool" where
  "MatchString re s = (FindStringSubmatch re s \<noteq> [])"

definition digits :: cclass where
  "digits = Chars ''0123456789''"

definition stackSpaceRegexp :: regexp where
  "stackSpaceRegexp =
     [Group digits, Lit '' pei'', Plus (NotChars ''N''),
      Lit ''Number of bytes used for stack in all functions'']"

definition asmInstrsRegexp :: regexp where
  "asmInstrsRegexp =
     [Group digits, Lit '' asm-printer'', Plus (NotChars ''N''),
      Lit ''Number of machine instrs printed'']"

definition execTimeRegexp :: regexp where
  "execTimeRegexp =
     [Lit ''Total Execution Time: '', Group (Chars ''0123456789.''), Lit '' seconds ('',
      Group (Chars ''0123456789.''), Lit '' wall clock)'']"

section \<open>Conversions: \<open>strconv.Atoi\<close> and \<open>strconv.Atof64\<close>\<close>

datatype os_Error =
    EINVAL
  | ERANGE
  | NumError string os_Error
  | SysError string
  | Errorf string os_Error

definition digit_val :: "char \<Rightarrow> nat option" where
  "digit_val =
     map_of [(CHR ''0'', 0), (CHR ''1'', 1), (CHR ''2'', 2), (CHR ''3'', 3), (CHR ''4'', 4),
             (CHR ''5'', 5), (CHR ''6'', 6), (CHR ''7'', 7), (CHR ''8'', 8), (CHR ''9'', 9)]"

text \<open>\<open>decimal acc s\<close>: the number the digits \<open>s\<close> spell, after the digits read into \<open>acc\<close>.\<close>

fun decimal :: "nat \<Rightarrow> string \<Rightarrow> nat option" where
  "decimal acc [] = Some acc"
| "decimal acc (c # cs) =
     (case digit_val c of None \<Rightarrow> None | Some d \<Rightarrow> decimal (acc * 10 + d) cs)"

text \<open>
  \<^verbatim>\<open>strconv.Atoi\<close>, for an \<^verbatim>\<open>int\<close> of \<open>IntSize\<close> bits (32 or 64, by the platform):
  an optional sign and at least one digit. It returns a value with every error: 0 with
  a syntax error, the nearest bound of the type with a range error.
\<close>

definition Atoi :: "nat \<Rightarrow> string \<Rightarrow> int \<times> os_Error option" where
  "Atoi IntSize s =
     (let neg = starts_with ''-'' s;
          body = (if starts_with ''-'' s then tl s else if starts_with ''+'' s then tl s else s)
      in if body = [] then (0, Some (NumError s EINVAL))
         else (case decimal 0 body of
                 None \<Rightarrow> (0, Some (NumError s EINVAL))
               | Some n \<Rightarrow>
                   if neg then
                     (if int n > 2 ^ (IntSize - 1)
                      then (- (2 ^ (IntSize - 1)), Some (NumError s ERANGE))
                      else (- int n, None))
                   else
                     (if int n \<ge> 2 ^ (IntSize - 1)
                      then (2 ^ (IntSize - 1) - 1, Some (NumError s ERANGE))
                      else (int n, None))))"

text \<open>
  A \<^verbatim>\<open>float64\<close> that is not negative and not a NaN (the conversion below, on the
  text the pattern can capture, gives no other): \<open>Finite m e\<close> is \<open>m * 2^e\<close>, with
  \<open>2^52 \<le> m < 2^53\<close> and \<open>-1074 \<le> e \<le> 971\<close> for a normal number, \<open>m < 2^52\<close> and
  \<open>e = -1074\<close> for a subnormal one, and \<open>Finite 0 0\<close> for zero.
\<close>

datatype float64 = Finite nat int | PosInf

definition float64_zero :: float64 where
  "float64_zero = Finite 0 0"

function bitlen :: "nat \<Rightarrow> nat" where
  "bitlen n = (if n = 0 then 0 else Suc (bitlen (n div 2)))"
  by pat_completeness auto
termination
  by (relation "measure id") auto

declare bitlen.simps [simp del]

text \<open>\<open>scale n d e\<close>: the fraction \<open>(n / d) / 2^e\<close>, as a numerator and a denominator.\<close>

definition scale :: "nat \<Rightarrow> nat \<Rightarrow> int \<Rightarrow> nat \<times> nat" where
  "scale n d e = (if e \<ge> 0 then (n, d * 2 ^ nat e) else (n * 2 ^ nat (- e), d))"

text \<open>
  \<open>nearest_float64 n d\<close>: the \<^verbatim>\<open>float64\<close> nearest to \<open>n / d\<close> (for \<open>d > 0\<close>), ties to the
  even mantissa, and whether the fraction is out of range: then the value is the
  infinity. \<open>lg\<close> is the integer part of the binary logarithm of \<open>n / d\<close>.
\<close>

definition nearest_float64 :: "nat \<Rightarrow> nat \<Rightarrow> float64 \<times> bool" where
  "nearest_float64 n d =
     (if n = 0 then (float64_zero, False)
      else
        let k = int (bitlen n) - int (bitlen d);
            lg = (if fst (scale n d k) \<ge> snd (scale n d k) then k else k - 1);
            e = max (lg - 52) (- 1074);
            N = fst (scale n d e);
            D = snd (scale n d e);
            m0 = N div D;
            r = N mod D;
            m = (if 2 * r > D \<or> (2 * r = D \<and> odd m0) then m0 + 1 else m0);
            m' = (if m = 2 ^ 53 then 2 ^ 52 else m);
            e' = (if m = 2 ^ 53 then e + 1 else e)
        in if e' > 971 then (PosInf, True)
           else if m' = 0 then (float64_zero, False)
           else (Finite m' e', False))"

text \<open>
  \<^verbatim>\<open>strconv.Atof64\<close> on a text of digits and dots, which is all \<open>execTimeRegexp\<close>
  captures (\<open>[0-9.]+\<close>): at most one dot and at least one digit, or else the syntax error;
  the value is the nearest \<^verbatim>\<open>float64\<close>, and the infinity with a range error when that
  is too large. As \<open>Atoi\<close>, it returns a value with every error: 0 with a syntax error.
  Signs, exponents and the names of the infinities and NaN are not modelled: a text
  with any other character gets the syntax error here.
\<close>

definition Atof64 :: "string \<Rightarrow> float64 \<times> os_Error option" where
  "Atof64 s =
     (let ip = takeWhile (\<lambda>c. c \<in> set ''0123456789'') s;
          rest = dropWhile (\<lambda>c. c \<in> set ''0123456789'') s;
          fp = (if starts_with ''.'' rest then tl rest else [])
      in if ip @ fp = [] then (float64_zero, Some (NumError s EINVAL))
         else if rest = [] \<or> starts_with ''.'' rest then
           (case decimal 0 (ip @ fp) of
              None \<Rightarrow> (float64_zero, Some (NumError s EINVAL))
            | Some n \<Rightarrow>
                if snd (nearest_float64 n (10 ^ length fp))
                then (PosInf, Some (NumError s ERANGE))
                else (fst (nearest_float64 n (10 ^ length fp)), None))
         else (float64_zero, Some (NumError s EINVAL)))"

section \<open>The statistics extractor: \<open>parseTestOutput\<close>\<close>

record Stats =
  AsmInstrs :: int
  StackSpace :: int
  Seconds :: float64
  WallSeconds :: float64

text \<open>\<^verbatim>\<open>new(Stats)\<close>: every field at its zero value.\<close>

definition new_Stats :: Stats where
  "new_Stats = \<lparr>AsmInstrs = 0, StackSpace = 0, Seconds = float64_zero, WallSeconds = float64_zero\<rparr>"

text \<open>
  A formatted print is kept as its format and its arguments: rendering them is the
  work of \<^verbatim>\<open>fmt\<close>. The \<^verbatim>\<open>log\<close> package writes each message to the standard error
  stream, after the time of day.
\<close>

datatype val = S string | I int | F float64 | E os_Error

type_synonym printf = "string \<times> val list"

text \<open>\<open>ss[i]\<close> on a slice panics out of range: \<open>None\<close>.\<close>

definition index :: "'a list \<Rightarrow> nat \<Rightarrow> 'a option" where
  "index xs i = (if i < length xs then Some (xs ! i) else None)"

text \<open>
  How one of the three \<^verbatim>\<open>if\<close> blocks of the loop body ends: it falls through to the
  next statement, or it takes \<^verbatim>\<open>continue\<close>, or the program panics. The state is the
  record behind \<open>res\<close> and the messages logged so far.
\<close>

datatype 'a flow = Next 'a | Continue 'a | Panic

type_synonym pstate = "Stats \<times> printf list"

definition asmInstrs_block :: "nat \<Rightarrow> string \<Rightarrow> pstate \<Rightarrow> pstate flow" where
  "asmInstrs_block IntSize line st =
     (if MatchString asmInstrsRegexp line then
        (let ss = FindStringSubmatch asmInstrsRegexp line in
         if length ss \<noteq> 2 then
           Continue (fst st, snd st @
             [(''parseTestOutput: could not parse AsmInstrs statistic for line=[%s]'', [S line])])
         else
           (case index ss 1 of
              None \<Rightarrow> Panic
            | Some c \<Rightarrow>
                (case snd (Atoi IntSize c) of
                   Some err \<Rightarrow>
                     Continue ((fst st)\<lparr>AsmInstrs := fst (Atoi IntSize c)\<rparr>, snd st @
                       [(''parseTestOutput: could not parse int value of AsmInstrs statistic '' @
                         ''for line=[%s], matched substring=[%s], err: %v'', [S line, S c, E err])])
                 | None \<Rightarrow> Next ((fst st)\<lparr>AsmInstrs := fst (Atoi IntSize c)\<rparr>, snd st))))
      else Next st)"

definition stackSpace_block :: "nat \<Rightarrow> string \<Rightarrow> pstate \<Rightarrow> pstate flow" where
  "stackSpace_block IntSize line st =
     (if MatchString stackSpaceRegexp line then
        (let ss = FindStringSubmatch stackSpaceRegexp line in
         if length ss \<noteq> 2 then
           Continue (fst st, snd st @
             [(''parseTestOutput: could not parse StackSpace statistic for line=[%s]'', [S line])])
         else
           (case index ss 1 of
              None \<Rightarrow> Panic
            | Some c \<Rightarrow>
                (case snd (Atoi IntSize c) of
                   Some err \<Rightarrow>
                     Continue ((fst st)\<lparr>StackSpace := fst (Atoi IntSize c)\<rparr>, snd st @
                       [(''parseTestOutput: could not parse int value of StackSpace statistic '' @
                         ''for line=[%s], matched substring=[%s], err: %v'', [S line, S c, E err])])
                 | None \<Rightarrow> Next ((fst st)\<lparr>StackSpace := fst (Atoi IntSize c)\<rparr>, snd st))))
      else Next st)"

definition execTime_block :: "string \<Rightarrow> pstate \<Rightarrow> pstate flow" where
  "execTime_block line st =
     (if MatchString execTimeRegexp line then
        (let ss = FindStringSubmatch execTimeRegexp line in
         if length ss \<noteq> 3 then
           Continue (fst st, snd st @
             [(''parseTestOutput: could not parse ExecTime statistic for line=[%s]'', [S line])])
         else
           (case index ss 1 of
              None \<Rightarrow> Panic
            | Some c1 \<Rightarrow>
                (case snd (Atof64 c1) of
                   Some err \<Rightarrow>
                     Continue ((fst st)\<lparr>Seconds := fst (Atof64 c1)\<rparr>, snd st @
                       [(''parseTestOutput: could not parse int value of Seconds statistic '' @
                         ''for line=[%s], matched substring=[%s], err: %v'', [S line, S c1, E err])])
                 | None \<Rightarrow>
                     (case index ss 2 of
                        None \<Rightarrow> Panic
                      | Some c2 \<Rightarrow>
                          (case snd (Atof64 c2) of
                             Some err \<Rightarrow>
                               Continue ((fst st)\<lparr>Seconds := fst (Atof64 c1),
                                                   WallSeconds := fst (Atof64 c2)\<rparr>, snd st @
                                 [(''parseTestOutput: could not parse int value of WallSeconds statistic '' @
                                   ''for line=[%s], matched substring=[%s], err: %v'',
                                   [S line, S c2, E err])])
                           | None \<Rightarrow>
                               Next ((fst st)\<lparr>Seconds := fst (Atof64 c1),
                                               WallSeconds := fst (Atof64 c2)\<rparr>, snd st))))))
      else Next st)"

text \<open>The loop body, for one piece of the split text.\<close>

definition parseLine :: "nat \<Rightarrow> string \<Rightarrow> pstate \<Rightarrow> pstate flow" where
  "parseLine IntSize l st =
     (let line = TrimSpace l in
      case asmInstrs_block IntSize line st of
        Panic \<Rightarrow> Panic
      | Continue st1 \<Rightarrow> Continue st1
      | Next st1 \<Rightarrow>
          (case stackSpace_block IntSize line st1 of
             Panic \<Rightarrow> Panic
           | Continue st2 \<Rightarrow> Continue st2
           | Next st2 \<Rightarrow> execTime_block line st2))"

text \<open>The loop: \<open>None\<close> when the body panics.\<close>

fun parseLines :: "nat \<Rightarrow> string list \<Rightarrow> pstate \<Rightarrow> pstate option" where
  "parseLines IntSize [] st = Some st"
| "parseLines IntSize (l # ls) st =
     (case parseLine IntSize l st of
        Panic \<Rightarrow> None
      | Continue st' \<Rightarrow> parseLines IntSize ls st'
      | Next st' \<Rightarrow> parseLines IntSize ls st')"

definition parseTestOutput :: "nat \<Rightarrow> string \<Rightarrow> pstate option" where
  "parseTestOutput IntSize stderr = parseLines IntSize (Split stderr) (new_Stats, [])"

text \<open>A piece of the text that none of the three patterns matches.\<close>

definition no_match :: "string \<Rightarrow> bool" where
  "no_match line =
     (\<not> MatchString asmInstrsRegexp line \<and> \<not> MatchString stackSpaceRegexp line \<and>
      \<not> MatchString execTimeRegexp line)"




section \<open>The process runner and the driver\<close>

text \<open>
  What the program does to the world is kept in a record: the formatted prints on the
  standard output, the writes on the standard error stream, the child processes
  started, and, as a trace for the properties below, every call of \<open>runTest\<close> with its
  toolchain, its test and the error it returned.
\<close>

record Cmd =
  Name_Join :: "string list"
  Args :: "string list"
  Stdin :: string

datatype err_out = Fprintf printf | PrintDefaults | Log_Printf printf | Log_Fatalf printf

record world =
  Stdout :: "printf list"
  Stderr :: "err_out list"
  started :: "Cmd list"
  runs :: "(string \<times> string \<times> os_Error option) list"

text \<open>
  How a child process behaves, step by step as \<open>runTest\<close> drives it: the errors of
  making the two pipes, of starting, of reading each stream to its end (or the text
  read), and of waiting for the exit.
\<close>

record proc =
  StderrPipe :: "os_Error option"
  StdoutPipe :: "os_Error option"
  Start :: "os_Error option"
  ReadAll_out :: "os_Error + string"
  ReadAll_err :: "os_Error + string"
  Wait :: "os_Error option"

text \<open>
  The environment: what reading a file gives and how a command behaves. Both may
  answer differently from one call of \<open>runTest\<close> to the next, so both depend on the
  number of calls made before.
\<close>

record env =
  ReadFile :: "nat \<Rightarrow> string \<Rightarrow> os_Error + string"
  child :: "nat \<Rightarrow> Cmd \<Rightarrow> proc"

text \<open>
  The body of \<open>runTest\<close>: the result pair \<open>(stderr, err)\<close> and the world. The command
  is made first; its name is \<^verbatim>\<open>path.Join(toolchain, "bin/llc")\<close>, kept as the elements
  joined. A return before \<^verbatim>\<open>stderr = string(stderrData)\<close> returns the empty text.
\<close>

definition runTest_body :: "env \<Rightarrow> string \<Rightarrow> string \<Rightarrow> world \<Rightarrow> (string \<times> os_Error option) \<times> world" where
  "runTest_body ev toolchain test w =
     (case ReadFile ev (length (runs w)) test of
        Inl err \<Rightarrow> (([], Some err), w)
      | Inr data \<Rightarrow>
          (let cmd = \<lparr>Name_Join = [toolchain, ''bin/llc''],
                      Args = [''-O0'', ''-stats'', ''--time-passes'', ''-relocation-model=pic'',
                              ''-O0'', ''-asm-verbose=false''],
                      Stdin = data\<rparr>;
               p = child ev (length (runs w)) cmd
           in case StderrPipe p of
                Some err \<Rightarrow> (([], Some err), w)
              | None \<Rightarrow>
             (case StdoutPipe p of
                Some err \<Rightarrow> (([], Some err), w)
              | None \<Rightarrow>
             (case Start p of
                Some err \<Rightarrow> (([], Some (Errorf ''cmd.Start: %v'' err)), w)
              | None \<Rightarrow>
             (case ReadAll_out p of
                Inl err \<Rightarrow>
                  (([], Some (Errorf ''ioutil.ReadAll(outPipe): %v'' err)),
                   w\<lparr>started := started w @ [cmd]\<rparr>)
              | Inr out \<Rightarrow>
             (case ReadAll_err p of
                Inl err \<Rightarrow>
                  (([], Some (Errorf ''ioutil.ReadAll(errPipe): %v'' err)),
                   w\<lparr>started := started w @ [cmd]\<rparr>)
              | Inr stderrData \<Rightarrow>
             (case Wait p of
                Some err \<Rightarrow>
                  (([], Some (Errorf ''cmd.Wait: %v'' err)), w\<lparr>started := started w @ [cmd]\<rparr>)
              | None \<Rightarrow> ((stderrData, None), w\<lparr>started := started w @ [cmd]\<rparr>))))))))"

text \<open>\<open>runTest\<close>, with the call added to the trace.\<close>

definition runTest :: "env \<Rightarrow> string \<Rightarrow> string \<Rightarrow> world \<Rightarrow> (string \<times> os_Error option) \<times> world" where
  "runTest ev toolchain test w =
     (fst (runTest_body ev toolchain test w),
      (snd (runTest_body ev toolchain test w))
        \<lparr>runs := runs w @ [(toolchain, test, snd (fst (runTest_body ev toolchain test w)))]\<rparr>)"

text \<open>
  How a function of the driver ends: it returns, or the program exits with a status
  (\<^verbatim>\<open>os.Exit\<close>, \<^verbatim>\<open>log.Fatalf\<close>), or it panics.
\<close>

datatype 'a outcome = Return 'a | Exit int | Panicked

definition bind :: "'a outcome \<times> world \<Rightarrow> ('a \<Rightarrow> world \<Rightarrow> 'b outcome \<times> world) \<Rightarrow> 'b outcome \<times> world" where
  "bind m f =
     (case fst m of
        Return a \<Rightarrow> f a (snd m)
      | Exit n \<Rightarrow> (Exit n, snd m)
      | Panicked \<Rightarrow> (Panicked, snd m))"

text \<open>\<^verbatim>\<open>log.Fatalf\<close>: the message on the standard error stream, then \<^verbatim>\<open>os.Exit(1)\<close>.\<close>

definition Fatalf :: "printf \<Rightarrow> world \<Rightarrow> 'a outcome \<times> world" where
  "Fatalf msg w = (Exit 1, w\<lparr>Stderr := Stderr w @ [Log_Fatalf msg]\<rparr>)"

text \<open>
  \<open>runAndParse\<close>: a \<^verbatim>\<open>*Stats\<close> is an option, nil is \<open>None\<close>. The messages
  \<open>parseTestOutput\<close> logs go to the standard error stream.
\<close>

definition runAndParse ::
  "env \<Rightarrow> nat \<Rightarrow> string \<Rightarrow> string \<Rightarrow> world \<Rightarrow> (Stats option \<times> os_Error option) outcome \<times> world" where
  "runAndParse ev IntSize toolchain test w =
     (case snd (fst (runTest ev toolchain test w)) of
        Some err \<Rightarrow> (Return (None, Some err), snd (runTest ev toolchain test w))
      | None \<Rightarrow>
          (case parseTestOutput IntSize (fst (fst (runTest ev toolchain test w))) of
             None \<Rightarrow> (Panicked, snd (runTest ev toolchain test w))
           | Some (res, log) \<Rightarrow>
               (Return (Some res, None),
                (snd (runTest ev toolchain test w))
                  \<lparr>Stderr := Stderr (snd (runTest ev toolchain test w)) @ map Log_Printf log\<rparr>)))"

definition runBoth ::
  "env \<Rightarrow> nat \<Rightarrow> string \<Rightarrow> string \<Rightarrow> string \<Rightarrow> world \<Rightarrow>
     ((Stats option \<times> Stats option) \<times> os_Error option) outcome \<times> world" where
  "runBoth ev IntSize t1 t2 test w =
     bind (runAndParse ev IntSize t1 test w) (\<lambda>r0 w0.
       case snd r0 of
         Some err \<Rightarrow> Fatalf (''runTest(t1=%s, test=%s): %v'', [S t1, S test, E err]) w0
       | None \<Rightarrow>
           bind (runAndParse ev IntSize t2 test w0) (\<lambda>r1 w1.
             case snd r1 of
               Some err \<Rightarrow> Fatalf (''runTest(t2=%s, test=%s): %v'', [S t2, S test, E err]) w1
             | None \<Rightarrow> (Return ((fst r0, fst r1), None), w1)))"

text \<open>\<^verbatim>\<open>path.Base\<close>: the last element of a path, after the trailing slashes are removed.\<close>

definition Base :: "string \<Rightarrow> string" where
  "Base p =
     (if p = [] then ''.''
      else let q = rev (takeWhile (\<lambda>c. c \<noteq> CHR ''/'') (dropWhile (\<lambda>c. c = CHR ''/'') (rev p)))
           in if q = [] then ''/'' else q)"

text \<open>The comparison line, as the formatted print of \<open>printStats\<close>.\<close>

definition comparison_line :: "string \<Rightarrow> Stats \<Rightarrow> Stats \<Rightarrow> printf" where
  "comparison_line test s0 s1 =
     (''%s'' @ [tab] @ ''%d'' @ [tab] @ ''%d'' @ [tab] @ ''%v'' @ [tab] @ ''%v'' @ [tab] @
      ''%d'' @ [tab] @ ''%d'' @ [tab] @ ''%v'' @ [tab] @ ''%v'' @ [nl],
      [S (Base test),
       I (AsmInstrs s0), I (StackSpace s0), F (Seconds s0), F (WallSeconds s0),
       I (AsmInstrs s1), I (StackSpace s1), F (Seconds s1), F (WallSeconds s1)])"

text \<open>\<open>printStats\<close> reads through both pointers: a nil one is a panic.\<close>

definition printStats :: "string \<Rightarrow> Stats option \<times> Stats option \<Rightarrow> world \<Rightarrow> os_Error option outcome \<times> world" where
  "printStats test stats w =
     (case fst stats of
        None \<Rightarrow> (Panicked, w)
      | Some s0 \<Rightarrow>
          (case snd stats of
             None \<Rightarrow> (Panicked, w)
           | Some s1 \<Rightarrow> (Return None, w\<lparr>Stdout := Stdout w @ [comparison_line test s0 s1]\<rparr>)))"

definition checkArg :: "string \<Rightarrow> bool \<Rightarrow> world \<Rightarrow> unit outcome \<times> world" where
  "checkArg name cond w =
     (if cond then (Return (), w)
      else (Exit 1,
            w\<lparr>Stderr := Stderr w @ [Fprintf (''%s is not specified'' @ [nl], [S name]), PrintDefaults]\<rparr>))"

text \<open>
  \<open>main\<close>, from the values \<^verbatim>\<open>flag.Parse\<close> has given the three flags (the empty text
  for a flag that is not set). Returning is exit status 0.
\<close>

definition main :: "env \<Rightarrow> nat \<Rightarrow> string \<Rightarrow> string \<Rightarrow> string \<Rightarrow> world \<Rightarrow> unit outcome \<times> world" where
  "main ev IntSize t1 t2 test w =
     bind (checkArg ''-test'' (test \<noteq> []) w) (\<lambda>u wa.
     bind (checkArg ''-t1'' (t1 \<noteq> []) wa) (\<lambda>u wb.
     bind (checkArg ''-t2'' (t2 \<noteq> []) wb) (\<lambda>u wc.
     bind (runBoth ev IntSize t1 t2 test
             (wc\<lparr>Stdout := Stdout wc @ [(''Running test: %s'' @ [nl], [S test])]\<rparr>)) (\<lambda>r1 w1.
       case snd r1 of
         Some err \<Rightarrow> Fatalf (''runBoth: %v'', [E err]) w1
       | None \<Rightarrow>
           bind (runBoth ev IntSize t1 t2 test w1) (\<lambda>r2 w2.
             case snd r2 of
               Some err \<Rightarrow> Fatalf (''runBoth(2): %v'', [E err]) w2
             | None \<Rightarrow>
                 bind (printStats test (fst r2) w2) (\<lambda>perr w3.
                   case perr of
                     Some err \<Rightarrow> Fatalf (''printStats: %v'', [E err]) w3
                   | None \<Rightarrow> (Return (), w3)))))))"

definition world0 :: world where
  "world0 = \<lparr>Stdout = [], Stderr = [], started = [], runs = []\<rparr>"

section \<open>Two environments for the examples\<close>

text \<open>
  \<open>proc_ok text\<close> is a child process that starts, writes \<open>text\<close> on its standard error
  stream and exits with status 0. In \<open>env_warm\<close> every file is readable and every
  child is such a process; the children of the first two calls of \<open>runTest\<close> report
  1234 instructions, the later ones report nothing. In \<open>env_no_t2\<close> the executable of
  the toolchain \<open>b\<close> cannot be started. \<open>llc toolchain\<close> is the command \<open>runTest\<close>
  makes for a toolchain in these environments.
\<close>

definition proc_ok :: "string \<Rightarrow> proc" where
  "proc_ok text =
     \<lparr>StderrPipe = None, StdoutPipe = None, Start = None, ReadAll_out = Inr [],
      ReadAll_err = Inr text, Wait = None\<rparr>"

definition env_warm :: env where
  "env_warm =
     \<lparr>ReadFile = (\<lambda>k p. Inr ''BC''),
      child = (\<lambda>k c. proc_ok
        (if k < 2 then ''1234 asm-printer               - Number of machine instrs printed''
         else []))\<rparr>"

definition env_no_t2 :: env where
  "env_no_t2 =
     \<lparr>ReadFile = (\<lambda>k p. Inr ''BC''),
      child = (\<lambda>k c.
        if Name_Join c = [''b'', ''bin/llc'']
        then (proc_ok [])\<lparr>Start := Some (SysError ''no such file or directory'')\<rparr>
        else proc_ok [])\<rparr>"

definition llc :: "string \<Rightarrow> Cmd" where
  "llc toolchain =
     \<lparr>Name_Join = [toolchain, ''bin/llc''],
      Args = [''-O0'', ''-stats'', ''--time-passes'', ''-relocation-model=pic'',
              ''-O0'', ''-asm-verbose=false''],
      Stdin = ''BC''\<rparr>"

section \<open>Properties of the matcher and of trimming\<close>

lemma starts_with_iff: "starts_with p s = (\<exists>r. s = p @ r)"
  by (induction p s rule: starts_with.induct) auto

lemma plus_splits_set:
  "set (plus_splits c acc s) =
     {(acc @ p, r) | p r. s = p @ r \<and> p \<noteq> [] \<and> list_all (in_class c) p}"
proof (induction s arbitrary: acc)
  case Nil
  then show ?case by simp
next
  case (Cons x xs)
  show ?case
  proof (cases "in_class c x")
    case False
    then show ?thesis by (auto simp: Cons_eq_append_conv)
  next
    case True
    have "{(acc @ p, r) | p r. x # xs = p @ r \<and> p \<noteq> [] \<and> list_all (in_class c) p}
        = {((acc @ [x]) @ p, r) | p r. xs = p @ r \<and> p \<noteq> [] \<and> list_all (in_class c) p}
          \<union> {(acc @ [x], xs)}" (is "?A = ?B \<union> ?C")
    proof (intro set_eqI iffI)
      fix z assume "z \<in> ?A"
      then obtain p r where z: "z = (acc @ p, r)" and s: "x # xs = p @ r" and ne: "p \<noteq> []"
        and cl: "list_all (in_class c) p" by blast
      from s ne obtain p' where p: "p = x # p'" and xs: "xs = p' @ r"
        by (cases p) auto
      show "z \<in> ?B \<union> ?C"
      proof (cases "p' = []")
        case True
        with z p xs show ?thesis by simp
      next
        case False
        with z p xs cl show ?thesis by auto
      qed
    next
      fix z assume "z \<in> ?B \<union> ?C"
      then show "z \<in> ?A"
      proof
        assume "z \<in> ?B"
        then obtain p r where "z = ((acc @ [x]) @ p, r)" "xs = p @ r" "list_all (in_class c) p"
          by blast
        with True show ?thesis
          by (intro CollectI exI[of _ "x # p"] exI[of _ r]) simp
      next
        assume "z \<in> ?C"
        with True show ?thesis
          by (intro CollectI exI[of _ "[x]"] exI[of _ xs]) simp
      qed
    qed
    with True Cons.IH[of "acc @ [x]"] show ?thesis by simp
  qed
qed

lemma plus_splits_append:
  "(p, r) \<in> set (plus_splits c acc s) \<Longrightarrow> (p, r @ b) \<in> set (plus_splits c acc (s @ b))"
  unfolding plus_splits_set by auto

lemma match_here_append:
  "(caps, r) \<in> set (match_here re s) \<Longrightarrow> (caps, r @ b) \<in> set (match_here re (s @ b))"
proof (induction re arbitrary: s caps r)
  case Nil
  then show ?case by simp
next
  case (Cons i re)
  show ?case
  proof (cases i)
    case (Lit l)
    with Cons.prems have sw: "starts_with l s" and m: "(caps, r) \<in> set (match_here re (drop (length l) s))"
      by (auto split: if_splits)
    from sw obtain t where s: "s = l @ t" by (auto simp: starts_with_iff)
    from m s have "(caps, r @ b) \<in> set (match_here re (t @ b))"
      using Cons.IH by simp
    with s Lit show ?thesis by (simp add: starts_with_iff)
  next
    case (Plus c)
    with Cons.prems obtain p t where pt: "(p, t) \<in> set (plus_splits c [] s)"
      and m: "(caps, r) \<in> set (match_here re t)" by auto
    from pt have "(p, t @ b) \<in> set (plus_splits c [] (s @ b))" by (rule plus_splits_append)
    moreover from m have "(caps, r @ b) \<in> set (match_here re (t @ b))" by (rule Cons.IH)
    ultimately show ?thesis using Plus by force
  next
    case (Group c)
    with Cons.prems obtain p t caps' where pt: "(p, t) \<in> set (plus_splits c [] s)"
      and m: "(caps', r) \<in> set (match_here re t)" and caps: "caps = p # caps'" by auto
    from pt have "(p, t @ b) \<in> set (plus_splits c [] (s @ b))" by (rule plus_splits_append)
    moreover from m have "(caps', r @ b) \<in> set (match_here re (t @ b))" by (rule Cons.IH)
    ultimately show ?thesis using Group caps by force
  qed
qed

lemma MatchString_iff:
  "MatchString re s = (\<exists>a t. s = a @ t \<and> match_here re t \<noteq> [])"
proof (induction s)
  case Nil
  then show ?case by (auto simp: MatchString_def split: list.splits)
next
  case (Cons c cs)
  show ?case
  proof (cases "match_here re (c # cs)")
    case (Cons m ms)
    then have "MatchString re (c # cs)" by (simp add: MatchString_def split: prod.splits)
    moreover have "\<exists>a t. c # cs = a @ t \<and> match_here re t \<noteq> []"
      using Cons by (intro exI[of _ "[]"] exI[of _ "c # cs"]) simp
    ultimately show ?thesis by simp
  next
    case Nil
    then have "MatchString re (c # cs) = MatchString re cs" by (simp add: MatchString_def)
    also have "\<dots> = (\<exists>a t. cs = a @ t \<and> match_here re t \<noteq> [])" by (rule Cons.IH)
    also have "\<dots> = (\<exists>a t. c # cs = a @ t \<and> match_here re t \<noteq> [])"
    proof
      assume "\<exists>a t. cs = a @ t \<and> match_here re t \<noteq> []"
      then obtain a t where "cs = a @ t" "match_here re t \<noteq> []" by blast
      then show "\<exists>a t. c # cs = a @ t \<and> match_here re t \<noteq> []"
        by (intro exI[of _ "c # a"] exI[of _ t]) simp
    next
      assume "\<exists>a t. c # cs = a @ t \<and> match_here re t \<noteq> []"
      then obtain a t where at: "c # cs = a @ t" and m: "match_here re t \<noteq> []" by blast
      show "\<exists>a t. cs = a @ t \<and> match_here re t \<noteq> []"
      proof (cases a)
        case Nil
        with at m \<open>match_here re (c # cs) = []\<close> show ?thesis by simp
      next
        case (Cons a' as)
        with at m show ?thesis by auto
      qed
    qed
    finally show ?thesis .
  qed
qed

lemma MatchString_substring:
  assumes "MatchString re t"
  shows "MatchString re (a @ t @ b)"
proof -
  from assms obtain a' u where t: "t = a' @ u" and m: "match_here re u \<noteq> []"
    by (auto simp: MatchString_iff)
  from m obtain caps r where "(caps, r) \<in> set (match_here re u)"
    by (cases "match_here re u") auto
  then have "(caps, r @ b) \<in> set (match_here re (u @ b))" by (rule match_here_append)
  then have "match_here re (u @ b) \<noteq> []" by auto
  then show ?thesis unfolding MatchString_iff t
    by (intro exI[of _ "a @ a'"] exI[of _ "u @ b"]) simp
qed

lemma trim_front_suffix: "\<exists>a. s = a @ trim_front ws s"
proof (induction ws s rule: trim_front.induct)
  case (1 ws s)
  show ?case
  proof (cases "space_len ws s = 0 \<or> s = []")
    case True
    then show ?thesis by (subst trim_front.simps) simp
  next
    case False
    with 1 obtain a where "drop (space_len ws s) s = a @ trim_front ws (drop (space_len ws s) s)"
      by blast
    then have "s = (take (space_len ws s) s @ a) @ trim_front ws (drop (space_len ws s) s)"
      by (metis append.assoc append_take_drop_id)
    moreover from False have "trim_front ws s = trim_front ws (drop (space_len ws s) s)"
      by (subst trim_front.simps) simp
    ultimately show ?thesis by metis
  qed
qed

lemma TrimSpace_substring: "\<exists>a b. s = a @ TrimSpace s @ b"
proof -
  obtain a where a: "s = a @ trim_front spaces s" using trim_front_suffix by blast
  obtain b where b: "rev (trim_front spaces s) =
      b @ trim_front (map rev spaces) (rev (trim_front spaces s))"
    using trim_front_suffix by blast
  from b have "trim_front spaces s = TrimSpace s @ rev b"
    unfolding TrimSpace_def by (metis rev_append rev_rev_ident)
  with a show ?thesis by metis
qed

lemma MatchString_TrimSpace: "MatchString re (TrimSpace s) \<Longrightarrow> MatchString re s"
  using MatchString_substring[of re "TrimSpace s"] TrimSpace_substring[of s] by metis

text \<open>At one start, each of the three patterns matches in at most one way.\<close>

lemma plus_splits_one:
  assumes one: "\<And>m r. length (h (m, r)) \<le> 1"
    and none: "\<And>m y r. in_class c y \<Longrightarrow> h (m, y # r) = []"
  shows "length (concat (map h (plus_splits c acc s))) \<le> 1"
proof (induction s arbitrary: acc)
  case Nil
  then show ?case by simp
next
  case (Cons y ys)
  show ?case
  proof (cases "in_class c y")
    case False
    then show ?thesis by simp
  next
    case True
    show ?thesis
    proof (cases ys)
      case Nil
      with True one[of "acc @ [y]" "[]"] show ?thesis by simp
    next
      case (Cons z zs)
      show ?thesis
      proof (cases "in_class c z")
        case True
        with \<open>in_class c y\<close> Cons none[of z "acc @ [y]" zs] Cons.IH[of "acc @ [y]"]
        show ?thesis by simp
      next
        case False
        with \<open>in_class c y\<close> Cons one[of "acc @ [y]" "z # zs"] show ?thesis by simp
      qed
    qed
  qed
qed

lemma det_Nil: "length (match_here [] s) \<le> 1"
  by simp

lemma det_Lit:
  "(\<And>s. length (match_here re s) \<le> 1) \<Longrightarrow> length (match_here (Lit l # re) s) \<le> 1"
  by simp

lemma det_Plus:
  assumes "\<not> in_class c x" and "\<And>s. length (match_here (Lit (x # l) # re) s) \<le> 1"
  shows "length (match_here (Plus c # Lit (x # l) # re) s) \<le> 1"
proof -
  have "length (concat (map (\<lambda>(m, r). match_here (Lit (x # l) # re) r) (plus_splits c [] s))) \<le> 1"
  proof (rule plus_splits_one)
    fix m r
    show "length (case (m, r) of (m, r) \<Rightarrow> match_here (Lit (x # l) # re) r) \<le> 1"
      using assms(2)[of r] by simp
  next
    fix m y r
    assume "in_class c y"
    with assms(1) have "x \<noteq> y" by auto
    then show "(case (m, y # r) of (m, r) \<Rightarrow> match_here (Lit (x # l) # re) r) = []"
      by simp
  qed
  then show ?thesis by (subst match_here.simps(3))
qed

lemma det_Group:
  assumes "\<not> in_class c x" and "\<And>s. length (match_here (Lit (x # l) # re) s) \<le> 1"
  shows "length (match_here (Group c # Lit (x # l) # re) s) \<le> 1"
proof -
  have "length (concat (map (\<lambda>(m, r). map (\<lambda>(caps, r'). (m # caps, r'))
      (match_here (Lit (x # l) # re) r)) (plus_splits c [] s))) \<le> 1"
  proof (rule plus_splits_one)
    fix m r
    show "length (case (m, r) of (m, r) \<Rightarrow> map (\<lambda>(caps, r'). (m # caps, r'))
        (match_here (Lit (x # l) # re) r)) \<le> 1"
      using assms(2)[of r] by simp
  next
    fix m y r
    assume "in_class c y"
    with assms(1) have "x \<noteq> y" by auto
    then show "(case (m, y # r) of (m, r) \<Rightarrow> map (\<lambda>(caps, r'). (m # caps, r'))
        (match_here (Lit (x # l) # re) r)) = []"
      by simp
  qed
  then show ?thesis by (subst match_here.simps(4))
qed

lemma match_here_deterministic:
  "length (match_here asmInstrsRegexp s) \<le> 1"
  "length (match_here stackSpaceRegexp s) \<le> 1"
  "length (match_here execTimeRegexp s) \<le> 1"
  unfolding asmInstrsRegexp_def stackSpaceRegexp_def execTimeRegexp_def digits_def
  by (intro det_Group det_Plus det_Lit det_Nil; simp)+

section \<open>The extractor never fails; texts without a match\<close>

lemma asmInstrs_block_no_match:
  "\<not> MatchString asmInstrsRegexp line \<Longrightarrow> asmInstrs_block n line st = Next st"
  by (simp add: asmInstrs_block_def)

lemma stackSpace_block_no_match:
  "\<not> MatchString stackSpaceRegexp line \<Longrightarrow> stackSpace_block n line st = Next st"
  by (simp add: stackSpace_block_def)

lemma execTime_block_no_match:
  "\<not> MatchString execTimeRegexp line \<Longrightarrow> execTime_block line st = Next st"
  by (simp add: execTime_block_def)

lemma asmInstrs_block_no_panic: "asmInstrs_block n line st \<noteq> Panic"
  by (simp add: asmInstrs_block_def index_def Let_def split: option.splits)

lemma stackSpace_block_no_panic: "stackSpace_block n line st \<noteq> Panic"
  by (simp add: stackSpace_block_def index_def Let_def split: option.splits)

lemma execTime_block_no_panic: "execTime_block line st \<noteq> Panic"
  by (simp add: execTime_block_def index_def Let_def split: option.splits)

lemma parseLine_no_panic: "parseLine n l st \<noteq> Panic"
  using asmInstrs_block_no_panic stackSpace_block_no_panic execTime_block_no_panic
  by (simp add: parseLine_def Let_def split: flow.splits)

lemma parseLines_no_panic: "\<exists>st'. parseLines n ls st = Some st'"
proof (induction ls arbitrary: st)
  case Nil
  then show ?case by simp
next
  case (Cons l ls)
  then show ?case
    using parseLine_no_panic[of n l st] by (cases "parseLine n l st") auto
qed

text \<open>
  Claim C8. For every diagnostic text the extractor returns a \<open>Stats\<close> record: the loop
  is over the finitely many pieces of the text, and no slice is read out of range, so
  nothing in it panics. (The matcher and the two conversions are library functions:
  they are total here, as their documentation has them.)
\<close>

theorem parseTestOutput_total: "\<exists>res log. parseTestOutput IntSize stderr = Some (res, log)"
  using parseLines_no_panic[of IntSize "Split stderr" "(new_Stats, [])"]
  by (auto simp: parseTestOutput_def)

lemma parseLine_no_match:
  "no_match (TrimSpace l) \<Longrightarrow> parseLine n l st = Next st"
  by (simp add: no_match_def parseLine_def asmInstrs_block_no_match stackSpace_block_no_match
      execTime_block_no_match)

lemma parseLines_no_match:
  "list_all (\<lambda>l. no_match (TrimSpace l)) ls \<Longrightarrow> parseLines n ls st = Some st"
  by (induction ls arbitrary: st) (simp_all add: parseLine_no_match)

lemma no_match_TrimSpace: "no_match l \<Longrightarrow> no_match (TrimSpace l)"
  unfolding no_match_def using MatchString_TrimSpace by blast

text \<open>
  Claim C6. When no line of the diagnostic text matches any of the three patterns, the
  extractor returns the record with all four fields zero (and logs nothing).
\<close>

theorem zero_default:
  assumes "\<forall>l \<in> set (Split stderr). no_match l"
  shows "parseTestOutput IntSize stderr =
    Some (\<lparr>AsmInstrs = 0, StackSpace = 0, Seconds = float64_zero, WallSeconds = float64_zero\<rparr>, [])"
proof -
  from assms have "list_all (\<lambda>l. no_match (TrimSpace l)) (Split stderr)"
    by (simp add: list_all_iff no_match_TrimSpace)
  then show ?thesis
    by (simp add: parseTestOutput_def parseLines_no_match new_Stats_def)
qed

theorem zero_default_witness:
  "list_all no_match (Split (''llc: warning'' @ [nl] @ ''  12 regalloc - Number of spills'' @ [nl])) \<and>
   parseTestOutput 32 (''llc: warning'' @ [nl] @ ''  12 regalloc - Number of spills'' @ [nl]) =
    Some (\<lparr>AsmInstrs = 0, StackSpace = 0, Seconds = float64_zero, WallSeconds = float64_zero\<rparr>, [])"
proof -
  have h: "list_all no_match (Split (''llc: warning'' @ [nl] @ ''  12 regalloc - Number of spills'' @ [nl]))"
    by code_simp
  then have "\<forall>l \<in> set (Split (''llc: warning'' @ [nl] @ ''  12 regalloc - Number of spills'' @ [nl])). no_match l"
    by (simp only: list_all_iff)
  from zero_default[OF this, of 32] h show ?thesis by simp
qed

section \<open>The end-to-end scenario\<close>

lemma bitlen_421: "bitlen 421 = 9" by (simp add: bitlen.simps)
lemma bitlen_450: "bitlen 450 = 9" by (simp add: bitlen.simps)
lemma bitlen_10000: "bitlen 10000 = 14" by (simp add: bitlen.simps)

lemma nearest_421: "nearest_float64 421 10000 = (Finite 6067249417993532 (- 57), False)"
  by (simp add: nearest_float64_def bitlen_421 bitlen_10000 scale_def Let_def)

lemma nearest_450: "nearest_float64 450 10000 = (Finite 6485183463413514 (- 57), False)"
  by (simp add: nearest_float64_def bitlen_450 bitlen_10000 scale_def Let_def)

lemma Atof64_0421: "Atof64 ''0.0421'' = (Finite 6067249417993532 (- 57), None)"
  by (simp add: Atof64_def nearest_421 digit_val_def)

lemma Atof64_0450: "Atof64 ''0.0450'' = (Finite 6485183463413514 (- 57), None)"
  by (simp add: Atof64_def nearest_450 digit_val_def)

lemma Atoi_1234: "Atoi 32 ''1234'' = (1234, None)" "Atoi 64 ''1234'' = (1234, None)"
  by (simp_all add: Atoi_def digit_val_def)

lemma Atoi_56: "Atoi 32 ''56'' = (56, None)" "Atoi 64 ''56'' = (56, None)"
  by (simp_all add: Atoi_def digit_val_def)

lemma asmInstrs_block_match:
  "FindStringSubmatch asmInstrsRegexp line = [m, c] \<Longrightarrow> Atoi n c = (v, None) \<Longrightarrow>
   asmInstrs_block n line st = Next ((fst st)\<lparr>AsmInstrs := v\<rparr>, snd st)"
  by (simp add: asmInstrs_block_def MatchString_def index_def)

lemma stackSpace_block_match:
  "FindStringSubmatch stackSpaceRegexp line = [m, c] \<Longrightarrow> Atoi n c = (v, None) \<Longrightarrow>
   stackSpace_block n line st = Next ((fst st)\<lparr>StackSpace := v\<rparr>, snd st)"
  by (simp add: stackSpace_block_def MatchString_def index_def)

lemma execTime_block_match:
  "FindStringSubmatch execTimeRegexp line = [m, c1, c2] \<Longrightarrow> Atof64 c1 = (x, None) \<Longrightarrow>
   Atof64 c2 = (y, None) \<Longrightarrow>
   execTime_block line st = Next ((fst st)\<lparr>Seconds := x, WallSeconds := y\<rparr>, snd st)"
  by (simp add: execTime_block_def MatchString_def index_def)

lemma block_no_match_Find:
  "FindStringSubmatch asmInstrsRegexp line = [] \<Longrightarrow> asmInstrs_block n line st = Next st"
  "FindStringSubmatch stackSpaceRegexp line = [] \<Longrightarrow> stackSpace_block n line st = Next st"
  "FindStringSubmatch execTimeRegexp line = [] \<Longrightarrow> execTime_block line st = Next st"
  by (simp_all add: asmInstrs_block_def stackSpace_block_def execTime_block_def MatchString_def)

lemma scenario_Split:
  "Split (''1234 asm-printer               - Number of machine instrs printed'' @ [nl] @
          ''56 pei-prologue-epilogue       - Number of bytes used for stack in all functions'' @ [nl] @
          ''Total Execution Time: 0.0421 seconds (0.0450 wall clock)'') =
   [''1234 asm-printer               - Number of machine instrs printed'',
    ''56 pei-prologue-epilogue       - Number of bytes used for stack in all functions'',
    ''Total Execution Time: 0.0421 seconds (0.0450 wall clock)'']"
  by code_simp

lemma scenario_line1:
  "TrimSpace ''1234 asm-printer               - Number of machine instrs printed'' =
     ''1234 asm-printer               - Number of machine instrs printed''"
  "FindStringSubmatch asmInstrsRegexp ''1234 asm-printer               - Number of machine instrs printed'' =
     [''1234 asm-printer               - Number of machine instrs printed'', ''1234'']"
  "FindStringSubmatch stackSpaceRegexp ''1234 asm-printer               - Number of machine instrs printed'' = []"
  "FindStringSubmatch execTimeRegexp ''1234 asm-printer               - Number of machine instrs printed'' = []"
  by code_simp+

lemma scenario_line2:
  "TrimSpace ''56 pei-prologue-epilogue       - Number of bytes used for stack in all functions'' =
     ''56 pei-prologue-epilogue       - Number of bytes used for stack in all functions''"
  "FindStringSubmatch asmInstrsRegexp ''56 pei-prologue-epilogue       - Number of bytes used for stack in all functions'' = []"
  "FindStringSubmatch stackSpaceRegexp ''56 pei-prologue-epilogue       - Number of bytes used for stack in all functions'' =
     [''56 pei-prologue-epilogue       - Number of bytes used for stack in all functions'', ''56'']"
  "FindStringSubmatch execTimeRegexp ''56 pei-prologue-epilogue       - Number of bytes used for stack in all functions'' = []"
  by code_simp+

lemma scenario_line3:
  "TrimSpace ''Total Execution Time: 0.0421 seconds (0.0450 wall clock)'' =
     ''Total Execution Time: 0.0421 seconds (0.0450 wall clock)''"
  "FindStringSubmatch asmInstrsRegexp ''Total Execution Time: 0.0421 seconds (0.0450 wall clock)'' = []"
  "FindStringSubmatch stackSpaceRegexp ''Total Execution Time: 0.0421 seconds (0.0450 wall clock)'' = []"
  "FindStringSubmatch execTimeRegexp ''Total Execution Time: 0.0421 seconds (0.0450 wall clock)'' =
     [''Total Execution Time: 0.0421 seconds (0.0450 wall clock)'', ''0.0421'', ''0.0450'']"
  by code_simp+

lemma scenario_parseLine1:
  "n = 32 \<or> n = 64 \<Longrightarrow>
   parseLine n ''1234 asm-printer               - Number of machine instrs printed'' st =
     Next ((fst st)\<lparr>AsmInstrs := 1234\<rparr>, snd st)"
  unfolding parseLine_def scenario_line1 Let_def
  using Atoi_1234
  by (auto simp: asmInstrs_block_match[OF scenario_line1(2)]
      block_no_match_Find(2)[OF scenario_line1(3)] block_no_match_Find(3)[OF scenario_line1(4)])

lemma scenario_parseLine2:
  "n = 32 \<or> n = 64 \<Longrightarrow>
   parseLine n ''56 pei-prologue-epilogue       - Number of bytes used for stack in all functions'' st =
     Next ((fst st)\<lparr>StackSpace := 56\<rparr>, snd st)"
  unfolding parseLine_def scenario_line2 Let_def
  using Atoi_56
  by (auto simp: stackSpace_block_match[OF scenario_line2(3)]
      block_no_match_Find(1)[OF scenario_line2(2)] block_no_match_Find(3)[OF scenario_line2(4)])

lemma scenario_parseLine3:
  "parseLine n ''Total Execution Time: 0.0421 seconds (0.0450 wall clock)'' st =
     Next ((fst st)\<lparr>Seconds := Finite 6067249417993532 (- 57),
                      WallSeconds := Finite 6485183463413514 (- 57)\<rparr>, snd st)"
  unfolding parseLine_def scenario_line3 Let_def
  by (simp add: execTime_block_match[OF scenario_line3(4) Atof64_0421 Atof64_0450]
      block_no_match_Find(1)[OF scenario_line3(2)] block_no_match_Find(2)[OF scenario_line3(3)])

text \<open>
  Claim C1. For the three lines of the end-to-end scenario the extractor returns
  \<open>AsmInstrs = 1234\<close>, \<open>StackSpace = 56\<close>, \<open>Seconds = 0.0421\<close> and
  \<open>WallSeconds = 0.0450\<close>, whether an \<^verbatim>\<open>int\<close> has 32 or 64 bits, and logs nothing.
  The two floating-point values are the \<^verbatim>\<open>float64\<close> nearest to 421/10000 and to
  450/10000, which is what the literals 0.0421 and 0.0450 denote.
\<close>

theorem end_to_end_scenario:
  "parseTestOutput 32
     (''1234 asm-printer               - Number of machine instrs printed'' @ [nl] @
      ''56 pei-prologue-epilogue       - Number of bytes used for stack in all functions'' @ [nl] @
      ''Total Execution Time: 0.0421 seconds (0.0450 wall clock)'') =
   Some (\<lparr>AsmInstrs = 1234, StackSpace = 56,
           Seconds = fst (nearest_float64 421 10000),
           WallSeconds = fst (nearest_float64 450 10000)\<rparr>, []) \<and>
   parseTestOutput 64
     (''1234 asm-printer               - Number of machine instrs printed'' @ [nl] @
      ''56 pei-prologue-epilogue       - Number of bytes used for stack in all functions'' @ [nl] @
      ''Total Execution Time: 0.0421 seconds (0.0450 wall clock)'') =
   Some (\<lparr>AsmInstrs = 1234, StackSpace = 56,
           Seconds = fst (nearest_float64 421 10000),
           WallSeconds = fst (nearest_float64 450 10000)\<rparr>, []) \<and>
   fst (nearest_float64 421 10000) = Finite 6067249417993532 (- 57) \<and>
   fst (nearest_float64 450 10000) = Finite 6485183463413514 (- 57)"
  unfolding parseTestOutput_def scenario_Split
  by (simp add: scenario_parseLine1 scenario_parseLine2 scenario_parseLine3 new_Stats_def
      nearest_421 nearest_450 float64_zero_def)

section \<open>One line of the loop, and the last matching line\<close>

lemma parseLines_append:
  "parseLines n (xs @ ys) st =
     (case parseLines n xs st of None \<Rightarrow> None | Some st' \<Rightarrow> parseLines n ys st')"
  by (induction xs arbitrary: st) (auto split: flow.splits)












section \<open>The execution-time line alone, the last match, and failed conversions\<close>

lemma parseLine_exec_only:
  assumes "\<not> MatchString asmInstrsRegexp l" "\<not> MatchString stackSpaceRegexp l"
    and "FindStringSubmatch execTimeRegexp (TrimSpace l) = [m, c1, c2]"
    and "Atof64 c1 = (x, None)" "Atof64 c2 = (y, None)"
  shows "parseLine n l st = Next ((fst st)\<lparr>Seconds := x, WallSeconds := y\<rparr>, snd st)"
proof -
  from assms(1,2) have "\<not> MatchString asmInstrsRegexp (TrimSpace l)"
    "\<not> MatchString stackSpaceRegexp (TrimSpace l)"
    using MatchString_TrimSpace by blast+
  then show ?thesis
    by (simp add: parseLine_def asmInstrs_block_no_match stackSpace_block_no_match
        execTime_block_match[OF assms(3,4,5)])
qed

text \<open>
  Claim C7. When the only line that matches a pattern is an execution-time line (it
  matches neither of the two integer patterns, and every other line matches nothing)
  and both captured numbers convert, the extractor returns \<open>Seconds\<close> and
  \<open>WallSeconds\<close> set to the two converted numbers and \<open>AsmInstrs\<close> and \<open>StackSpace\<close>
  zero. The line matches as the extractor sees it: trimmed.
\<close>

theorem execution_time_only:
  assumes "Split stderr = before @ [l] @ after"
    and "list_all no_match before" "list_all no_match after"
    and "\<not> MatchString asmInstrsRegexp l" "\<not> MatchString stackSpaceRegexp l"
    and "FindStringSubmatch execTimeRegexp (TrimSpace l) = [m, c1, c2]"
    and "Atof64 c1 = (x, None)" "Atof64 c2 = (y, None)"
  shows "parseTestOutput IntSize stderr =
    Some (\<lparr>AsmInstrs = 0, StackSpace = 0, Seconds = x, WallSeconds = y\<rparr>, [])"
proof -
  have b: "list_all (\<lambda>l. no_match (TrimSpace l)) before"
    and a: "list_all (\<lambda>l. no_match (TrimSpace l)) after"
    using assms(2,3) by (simp_all add: list_all_iff no_match_TrimSpace)
  show ?thesis
    unfolding parseTestOutput_def assms(1)
    by (simp add: parseLines_append parseLines_no_match[OF b] parseLines_no_match[OF a]
        parseLine_exec_only[OF assms(4-8)] new_Stats_def)
qed







section \<open>Examples\<close>








lemma padded_exec_facts:
  "TrimSpace ''  Total Execution Time: 0.0421 seconds (0.0450 wall clock)  '' =
     ''Total Execution Time: 0.0421 seconds (0.0450 wall clock)''"
  "FindStringSubmatch asmInstrsRegexp ''Total Execution Time: 0.0421 seconds (0.0450 wall clock)'' =
     []"
  "FindStringSubmatch stackSpaceRegexp ''Total Execution Time: 0.0421 seconds (0.0450 wall clock)'' =
     []"
  "FindStringSubmatch execTimeRegexp ''Total Execution Time: 0.0421 seconds (0.0450 wall clock)'' =
     [''Total Execution Time: 0.0421 seconds (0.0450 wall clock)'', ''0.0421'', ''0.0450'']"
  by code_simp+




lemma no_match_examples: "no_match ''llc: note''" "no_match []"
  by code_simp+

lemma padded_exec_no_int:
  "\<not> MatchString asmInstrsRegexp ''  Total Execution Time: 0.0421 seconds (0.0450 wall clock)  ''"
  "\<not> MatchString stackSpaceRegexp ''  Total Execution Time: 0.0421 seconds (0.0450 wall clock)  ''"
  by code_simp+

lemma padded_exec_Split:
  "Split (''llc: note'' @ [nl] @ ''  Total Execution Time: 0.0421 seconds (0.0450 wall clock)  '' @ [nl]) =
     [''llc: note''] @ [''  Total Execution Time: 0.0421 seconds (0.0450 wall clock)  ''] @ [[]]"
  by code_simp

theorem execution_time_only_witness:
  "parseTestOutput 32 (''llc: note'' @ [nl] @ ''  Total Execution Time: 0.0421 seconds (0.0450 wall clock)  '' @ [nl]) =
     Some (\<lparr>AsmInstrs = 0, StackSpace = 0, Seconds = Finite 6067249417993532 (- 57),
             WallSeconds = Finite 6485183463413514 (- 57)\<rparr>, []) \<and>
   list_all no_match [''llc: note''] \<and> list_all no_match [[]]"
  using execution_time_only[OF padded_exec_Split _ _ padded_exec_no_int
      padded_exec_facts(4)[unfolded padded_exec_facts(1)[symmetric]] Atof64_0421 Atof64_0450, of 32]
    no_match_examples
  by simp














section \<open>The driver\<close>

lemma runTest_world:
  "runs (snd (runTest ev tc test w)) = runs w @ [(tc, test, snd (fst (runTest ev tc test w)))]"
  "Stdout (snd (runTest ev tc test w)) = Stdout w"
  "Stderr (snd (runTest ev tc test w)) = Stderr w"
  by (auto simp: runTest_def runTest_body_def Let_def split: sum.splits option.splits)

lemma runAndParse_cases:
  obtains
    (Failed) e w' where "runAndParse ev n tc test w = (Return (None, Some e), w')"
      "runs w' = runs w @ [(tc, test, Some e)]" "Stdout w' = Stdout w" "Stderr w' = Stderr w"
  | (Parsed) res log w' where "runAndParse ev n tc test w = (Return (Some res, None), w')"
      "runs w' = runs w @ [(tc, test, None)]" "Stdout w' = Stdout w"
      "Stderr w' = Stderr w @ map Log_Printf log"
      "parseTestOutput n (fst (fst (runTest ev tc test w))) = Some (res, log)"
proof (cases "snd (fst (runTest ev tc test w))")
  case (Some e)
  then have "runAndParse ev n tc test w = (Return (None, Some e), snd (runTest ev tc test w))"
    by (simp add: runAndParse_def)
  moreover have "runs (snd (runTest ev tc test w)) = runs w @ [(tc, test, Some e)]"
    using runTest_world(1)[of ev tc test w] Some by simp
  ultimately show ?thesis using Failed runTest_world(2,3) by blast
next
  case None
  obtain res log where p: "parseTestOutput n (fst (fst (runTest ev tc test w))) = Some (res, log)"
    using parseLines_no_panic[of n "Split (fst (fst (runTest ev tc test w)))" "(new_Stats, [])"]
    by (auto simp: parseTestOutput_def)
  let ?w = "(snd (runTest ev tc test w))\<lparr>Stderr := Stderr (snd (runTest ev tc test w)) @ map Log_Printf log\<rparr>"
  from None p have "runAndParse ev n tc test w = (Return (Some res, None), ?w)"
    by (simp add: runAndParse_def)
  moreover have "runs ?w = runs w @ [(tc, test, None)]"
    using runTest_world(1)[of ev tc test w] None by simp
  moreover have "Stdout ?w = Stdout w" "Stderr ?w = Stderr w @ map Log_Printf log"
    by (simp_all add: runTest_world)
  ultimately show ?thesis using Parsed p by blast
qed

lemma runBoth_cases:
  obtains
    (Failed1) e w' where "runBoth ev n t1 t2 test w = (Exit 1, w')"
      "runs w' = runs w @ [(t1, test, Some e)]" "Stdout w' = Stdout w"
      "last (Stderr w') = Log_Fatalf (''runTest(t1=%s, test=%s): %v'', [S t1, S test, E e])"
  | (Failed2) e w' where "runBoth ev n t1 t2 test w = (Exit 1, w')"
      "runs w' = runs w @ [(t1, test, None), (t2, test, Some e)]" "Stdout w' = Stdout w"
      "last (Stderr w') = Log_Fatalf (''runTest(t2=%s, test=%s): %v'', [S t2, S test, E e])"
  | (Both) s0 s1 w' where "runBoth ev n t1 t2 test w = (Return ((Some s0, Some s1), None), w')"
      "runs w' = runs w @ [(t1, test, None), (t2, test, None)]" "Stdout w' = Stdout w"
proof (cases rule: runAndParse_cases[of ev n t1 test w])
  case (Failed e w0)
  then show ?thesis
    using Failed1[of "w0\<lparr>Stderr := Stderr w0 @ [Log_Fatalf (''runTest(t1=%s, test=%s): %v'', [S t1, S test, E e])]\<rparr>" e]
    by (simp add: runBoth_def bind_def Fatalf_def)
next
  case (Parsed s0 log0 w0)
  show ?thesis
  proof (cases rule: runAndParse_cases[of ev n t2 test w0])
    case (Failed e w1)
    with Parsed show ?thesis
      using Failed2[of "w1\<lparr>Stderr := Stderr w1 @ [Log_Fatalf (''runTest(t2=%s, test=%s): %v'', [S t2, S test, E e])]\<rparr>" e]
      by (simp add: runBoth_def bind_def Fatalf_def)
  next
    case (Parsed s1 log1 w1)
    with \<open>runAndParse ev n t1 test w = (Return (Some s0, None), w0)\<close>
      \<open>runs w0 = runs w @ [(t1, test, None)]\<close> \<open>Stdout w0 = Stdout w\<close>
    show ?thesis
      using Both[of s0 s1 w1] by (simp add: runBoth_def bind_def)
  qed
qed

lemma bind_simps:
  "bind (Return a, w) f = f a w"
  "bind (Exit k, w) f = (Exit k, w)"
  "bind (Panicked, w) f = (Panicked, w)"
  by (simp_all add: bind_def)

lemma main_cases:
  obtains
    (NoFlag) w' where "main ev n t1 t2 test w = (Exit 1, w')"
      "runs w' = runs w" "Stdout w' = Stdout w" "started w' = started w"
      "test = [] \<or> t1 = [] \<or> t2 = []"
  | (Failed) k e w' where "k < 4" "main ev n t1 t2 test w = (Exit 1, w')"
      "runs w' = runs w @ map (\<lambda>tc. (tc, test, None)) (take k [t1, t2, t1, t2]) @
         [([t1, t2, t1, t2] ! k, test, Some e)]"
      "Stdout w' = Stdout w @ [(''Running test: %s'' @ [nl], [S test])]"
      "last (Stderr w') =
         Log_Fatalf (if even k then ''runTest(t1=%s, test=%s): %v'' else ''runTest(t2=%s, test=%s): %v'',
           [S ([t1, t2, t1, t2] ! k), S test, E e])"
  | (Done) r1 w1 s0 s1 w2 where
      "runBoth ev n t1 t2 test (w\<lparr>Stdout := Stdout w @ [(''Running test: %s'' @ [nl], [S test])]\<rparr>) =
         (Return r1, w1)"
      "runBoth ev n t1 t2 test w1 = (Return ((Some s0, Some s1), None), w2)"
      "main ev n t1 t2 test w = (Return (), w2\<lparr>Stdout := Stdout w2 @ [comparison_line test s0 s1]\<rparr>)"
      "Stdout w2 = Stdout w @ [(''Running test: %s'' @ [nl], [S test])]"
      "runs w2 = runs w @ [(t1, test, None), (t2, test, None), (t1, test, None), (t2, test, None)]"
proof (cases "test = [] \<or> t1 = [] \<or> t2 = []")
  case True
  show ?thesis
  proof (cases "test = []")
    case True
    then show ?thesis
      using NoFlag[of "w\<lparr>Stderr := Stderr w @ [Fprintf (''%s is not specified'' @ [nl], [S ''-test'']), PrintDefaults]\<rparr>"]
      by (simp add: main_def bind_simps checkArg_def)
  next
    case test: False
    show ?thesis
    proof (cases "t1 = []")
      case True
      with test show ?thesis
        using NoFlag[of "w\<lparr>Stderr := Stderr w @ [Fprintf (''%s is not specified'' @ [nl], [S ''-t1'']), PrintDefaults]\<rparr>"]
        by (simp add: main_def bind_simps checkArg_def)
    next
      case False
      with test \<open>test = [] \<or> t1 = [] \<or> t2 = []\<close> have "t2 = []" by simp
      with test False show ?thesis
        using NoFlag[of "w\<lparr>Stderr := Stderr w @ [Fprintf (''%s is not specified'' @ [nl], [S ''-t2'']), PrintDefaults]\<rparr>"]
        by (simp add: main_def bind_simps checkArg_def)
    qed
  qed
next
  case False
  let ?w0 = "w\<lparr>Stdout := Stdout w @ [(''Running test: %s'' @ [nl], [S test])]\<rparr>"
  have m: "main ev n t1 t2 test w =
      bind (runBoth ev n t1 t2 test ?w0) (\<lambda>r1 w1.
       case snd r1 of
         Some err \<Rightarrow> Fatalf (''runBoth: %v'', [E err]) w1
       | None \<Rightarrow>
           bind (runBoth ev n t1 t2 test w1) (\<lambda>r2 w2.
             case snd r2 of
               Some err \<Rightarrow> Fatalf (''runBoth(2): %v'', [E err]) w2
             | None \<Rightarrow>
                 bind (printStats test (fst r2) w2) (\<lambda>perr w3.
                   case perr of
                     Some err \<Rightarrow> Fatalf (''printStats: %v'', [E err]) w3
                   | None \<Rightarrow> (Return (), w3))))"
    using False by (simp add: main_def bind_simps checkArg_def)
  show ?thesis
  proof (cases rule: runBoth_cases[of ev n t1 t2 test ?w0])
    case (Failed1 e w')
    then show ?thesis using Failed[of 0 w' e] by (simp add: m bind_simps)
  next
    case (Failed2 e w')
    then show ?thesis using Failed[of 1 w' e] by (simp add: m bind_simps)
  next
    case (Both a0 a1 w1)
    note first = Both
    show ?thesis
    proof (cases rule: runBoth_cases[of ev n t1 t2 test w1])
      case (Failed1 e w')
      with first show ?thesis using Failed[of 2 w' e] by (simp add: m bind_simps)
    next
      case (Failed2 e w')
      with first show ?thesis
        using Failed[of 3 w' e] by (simp add: m bind_simps numeral_3_eq_3)
    next
      case (Both s0 s1 w2)
      with first show ?thesis
        using Done[of "((Some a0, Some a1), None)" w1 s0 s1 w2]
        by (simp add: m bind_simps printStats_def)
    qed
  qed
qed

lemma parse_empty: "parseTestOutput n [] = Some (new_Stats, [])"
proof -
  have "no_match (TrimSpace [])" by code_simp
  then show ?thesis by (simp add: parseTestOutput_def parseLine_no_match)
qed

lemma parse_1234:
  "parseTestOutput 64 ''1234 asm-printer               - Number of machine instrs printed'' =
     Some (new_Stats\<lparr>AsmInstrs := 1234\<rparr>, [])"
proof -
  have "Split ''1234 asm-printer               - Number of machine instrs printed'' =
      [''1234 asm-printer               - Number of machine instrs printed'']"
    by code_simp
  then show ?thesis by (simp add: parseTestOutput_def scenario_parseLine1)
qed


lemma runAndParse_env_warm:
  "runAndParse env_warm 64 tc test w =
     (Return (Some (if length (runs w) < 2 then new_Stats\<lparr>AsmInstrs := 1234\<rparr> else new_Stats), None),
      w\<lparr>started := started w @ [llc tc], runs := runs w @ [(tc, test, None)]\<rparr>)"
  by (simp add: runAndParse_def runTest_def runTest_body_def env_warm_def proc_ok_def llc_def
      parse_empty parse_1234)

lemma main_env_warm:
  "main env_warm 64 ''a'' ''b'' ''dir/t.bc'' world0 =
     (Return (),
      \<lparr>Stdout = [(''Running test: %s'' @ [nl], [S ''dir/t.bc'']),
                 comparison_line ''dir/t.bc'' new_Stats new_Stats],
       Stderr = [],
       started = [llc ''a'', llc ''b'', llc ''a'', llc ''b''],
       runs = [(''a'', ''dir/t.bc'', None), (''b'', ''dir/t.bc'', None),
               (''a'', ''dir/t.bc'', None), (''b'', ''dir/t.bc'', None)]\<rparr>)"
  by (simp add: main_def bind_simps checkArg_def runBoth_def runAndParse_env_warm printStats_def
      world0_def)

lemma runAndParse_env_no_t2:
  "runAndParse env_no_t2 64 ''a'' test w =
     (Return (Some new_Stats, None),
      w\<lparr>started := started w @ [llc ''a''], runs := runs w @ [(''a'', test, None)]\<rparr>)"
  "runAndParse env_no_t2 64 ''b'' test w =
     (Return (None, Some (Errorf ''cmd.Start: %v'' (SysError ''no such file or directory''))),
      w\<lparr>runs := runs w @
        [(''b'', test, Some (Errorf ''cmd.Start: %v'' (SysError ''no such file or directory'')))]\<rparr>)"
  by (simp_all add: runAndParse_def runTest_def runTest_body_def env_no_t2_def proc_ok_def llc_def
      parse_empty)

lemma main_env_no_t2:
  "main env_no_t2 64 ''a'' ''b'' ''dir/t.bc'' world0 =
     (Exit 1,
      \<lparr>Stdout = [(''Running test: %s'' @ [nl], [S ''dir/t.bc''])],
       Stderr = [Log_Fatalf (''runTest(t2=%s, test=%s): %v'',
         [S ''b'', S ''dir/t.bc'',
          E (Errorf ''cmd.Start: %v'' (SysError ''no such file or directory''))])],
       started = [llc ''a''],
       runs = [(''a'', ''dir/t.bc'', None),
               (''b'', ''dir/t.bc'',
                Some (Errorf ''cmd.Start: %v'' (SysError ''no such file or directory'')))]\<rparr>)"
  by (simp add: main_def bind_simps checkArg_def runBoth_def runAndParse_env_no_t2 Fatalf_def
      world0_def)

text \<open>
  Claim C9. With \<^verbatim>\<open>-t1\<close> and \<^verbatim>\<open>-test\<close> set and \<^verbatim>\<open>-t2\<close> not, the program exits with
  status 1 after writing, on the standard error stream, the message that names
  \<^verbatim>\<open>-t2\<close> and the flag defaults. It reads no file and starts no child process, and
  it writes nothing on the standard output.
\<close>

theorem missing_t2_flag:
  assumes "t1 \<noteq> []" and "test \<noteq> []"
  shows "main ev IntSize t1 [] test w =
      (Exit 1,
       w\<lparr>Stderr := Stderr w @
          [Fprintf (''%s is not specified'' @ [nl], [S ''-t2'']), PrintDefaults]\<rparr>) \<and>
    started (snd (main ev IntSize t1 [] test w)) = started w \<and>
    runs (snd (main ev IntSize t1 [] test w)) = runs w \<and>
    Stdout (snd (main ev IntSize t1 [] test w)) = Stdout w"
  using assms by (simp add: main_def bind_simps checkArg_def)

theorem missing_t2_flag_witness:
  "main env_warm 64 ''a'' [] ''dir/t.bc'' world0 =
     (Exit 1,
      \<lparr>Stdout = [],
       Stderr = [Fprintf (''%s is not specified'' @ [nl], [S ''-t2'']), PrintDefaults],
       started = [], runs = []\<rparr>)"
  using missing_t2_flag[of "''a''" "''dir/t.bc''" env_warm 64 world0]
  by (simp add: world0_def)




text \<open>
  Claim C4. An invocation that returns has called \<open>runBoth\<close> twice with the same
  arguments, each call running toolchain 1 and then toolchain 2. The result \<open>r1\<close> of
  the first call appears nowhere in what follows: the comparison line is made from
  the two records the second call returns.
\<close>

theorem first_run_discarded:
  assumes "main ev IntSize t1 t2 test w = (Return (), w')"
  shows "\<exists>r1 w1 s0 s1 w2.
      runBoth ev IntSize t1 t2 test
        (w\<lparr>Stdout := Stdout w @ [(''Running test: %s'' @ [nl], [S test])]\<rparr>) = (Return r1, w1) \<and>
      runBoth ev IntSize t1 t2 test w1 = (Return ((Some s0, Some s1), None), w2) \<and>
      w' = w2\<lparr>Stdout := Stdout w @
              [(''Running test: %s'' @ [nl], [S test]), comparison_line test s0 s1]\<rparr> \<and>
      runs w' = runs w @
        [(t1, test, None), (t2, test, None), (t1, test, None), (t2, test, None)]"
proof (cases rule: main_cases[of ev IntSize t1 t2 test w])
  case (NoFlag w'')
  with assms show ?thesis by simp
next
  case (Failed k e w'')
  with assms show ?thesis by simp
next
  case (Done r1 w1 s0 s1 w2)
  from Done(3) assms have "w' = w2\<lparr>Stdout := Stdout w2 @ [comparison_line test s0 s1]\<rparr>"
    by simp
  with Done(4) have "w' = w2\<lparr>Stdout := Stdout w @
      [(''Running test: %s'' @ [nl], [S test]), comparison_line test s0 s1]\<rparr>"
    by simp
  moreover from this Done(5) have "runs w' = runs w @
      [(t1, test, None), (t2, test, None), (t1, test, None), (t2, test, None)]"
    by simp
  ultimately show ?thesis using Done(1,2) by blast
qed

lemma runBoth_env_warm:
  "runBoth env_warm 64 t1 t2 test w =
     (Return ((Some (if length (runs w) < 2 then new_Stats\<lparr>AsmInstrs := 1234\<rparr> else new_Stats),
               Some (if length (runs w) < 1 then new_Stats\<lparr>AsmInstrs := 1234\<rparr> else new_Stats)),
              None),
      w\<lparr>started := started w @ [llc t1, llc t2],
        runs := runs w @ [(t1, test, None), (t2, test, None)]\<rparr>)"
  by (simp add: runBoth_def bind_simps runAndParse_env_warm)

theorem first_run_discarded_witness:
  "fst (runBoth env_warm 64 ''a'' ''b'' ''dir/t.bc''
      (world0\<lparr>Stdout := Stdout world0 @ [(''Running test: %s'' @ [nl], [S ''dir/t.bc''])]\<rparr>)) =
     Return ((Some (new_Stats\<lparr>AsmInstrs := 1234\<rparr>), Some (new_Stats\<lparr>AsmInstrs := 1234\<rparr>)), None) \<and>
   (\<exists>r1 w1 w2.
      runBoth env_warm 64 ''a'' ''b'' ''dir/t.bc''
        (world0\<lparr>Stdout := Stdout world0 @ [(''Running test: %s'' @ [nl], [S ''dir/t.bc''])]\<rparr>) =
        (Return r1, w1) \<and>
      runBoth env_warm 64 ''a'' ''b'' ''dir/t.bc'' w1 =
        (Return ((Some new_Stats, Some new_Stats), None), w2) \<and>
      snd (main env_warm 64 ''a'' ''b'' ''dir/t.bc'' world0) =
        w2\<lparr>Stdout := Stdout world0 @
             [(''Running test: %s'' @ [nl], [S ''dir/t.bc'']),
              comparison_line ''dir/t.bc'' new_Stats new_Stats]\<rparr>)"
proof -
  from first_run_discarded[OF main_env_warm] obtain r1 w1 s0 s1 w2 where
    a: "runBoth env_warm 64 ''a'' ''b'' ''dir/t.bc''
        (world0\<lparr>Stdout := Stdout world0 @ [(''Running test: %s'' @ [nl], [S ''dir/t.bc''])]\<rparr>) =
        (Return r1, w1)" and
    b: "runBoth env_warm 64 ''a'' ''b'' ''dir/t.bc'' w1 = (Return ((Some s0, Some s1), None), w2)" and
    c: "snd (main env_warm 64 ''a'' ''b'' ''dir/t.bc'' world0) =
        w2\<lparr>Stdout := Stdout world0 @
             [(''Running test: %s'' @ [nl], [S ''dir/t.bc'']), comparison_line ''dir/t.bc'' s0 s1]\<rparr>"
    unfolding main_env_warm snd_conv by blast
  from a have w1: "runs w1 = [(''a'', ''dir/t.bc'', None), (''b'', ''dir/t.bc'', None)]"
    by (auto simp: runBoth_env_warm world0_def)
  from b w1 have "s0 = new_Stats" "s1 = new_Stats"
    by (simp_all add: runBoth_env_warm)
  with a b c show ?thesis
    by (auto simp: runBoth_env_warm world0_def)
qed

text \<open>
  Claim C5. If a call of \<open>runTest\<close> made by the program returns an error, the program
  exits with status 1; the last message on the standard error stream is the fatal
  one, with the toolchain, the test and the error; the standard output holds the
  \<^verbatim>\<open>Running test\<close> line and no comparison line; and the failed call is the last call
  of \<open>runTest\<close>: the calls before it succeeded, and none follows. So when the run of
  toolchain 1 fails, the run of toolchain 2 that would follow is never started.
\<close>

theorem failed_run_is_fatal:
  assumes "main ev IntSize t1 t2 test w = (out, w')"
    and "(tc, tst, Some e) \<in> set (drop (length (runs w)) (runs w'))"
  shows "out = Exit 1 \<and>
    Stdout w' = Stdout w @ [(''Running test: %s'' @ [nl], [S test])] \<and>
    tst = test \<and>
    (\<exists>k<4. tc = [t1, t2, t1, t2] ! k \<and>
       drop (length (runs w)) (runs w') =
         map (\<lambda>tc. (tc, test, None)) (take k [t1, t2, t1, t2]) @ [(tc, test, Some e)] \<and>
       last (Stderr w') =
         Log_Fatalf (if even k then ''runTest(t1=%s, test=%s): %v''
                     else ''runTest(t2=%s, test=%s): %v'', [S tc, S test, E e]))"
proof (cases rule: main_cases[of ev IntSize t1 t2 test w])
  case (NoFlag w'')
  with assms show ?thesis by simp
next
  case (Done r1 w1 s0 s1 w2)
  with assms show ?thesis by auto
next
  case (Failed k e' w'')
  with assms(1) have w: "w'' = w'" and out: "out = Exit 1" by simp_all
  from assms(2) Failed(3) w have
    "(tc, tst, Some e) \<in> set (map (\<lambda>tc. (tc, test, None)) (take k [t1, t2, t1, t2]) @
       [([t1, t2, t1, t2] ! k, test, Some e')])"
    by simp
  then have eq: "tc = [t1, t2, t1, t2] ! k" "tst = test" "e = e'" by auto
  with Failed w out show ?thesis by auto
qed

theorem failed_run_is_fatal_witness:
  "main env_no_t2 64 ''a'' ''b'' ''dir/t.bc'' world0 =
     (Exit 1,
      \<lparr>Stdout = [(''Running test: %s'' @ [nl], [S ''dir/t.bc''])],
       Stderr = [Log_Fatalf (''runTest(t2=%s, test=%s): %v'',
         [S ''b'', S ''dir/t.bc'',
          E (Errorf ''cmd.Start: %v'' (SysError ''no such file or directory''))])],
       started = [llc ''a''],
       runs = [(''a'', ''dir/t.bc'', None),
               (''b'', ''dir/t.bc'',
                Some (Errorf ''cmd.Start: %v'' (SysError ''no such file or directory'')))]\<rparr>) \<and>
   Stdout (snd (main env_no_t2 64 ''a'' ''b'' ''dir/t.bc'' world0)) =
     Stdout world0 @ [(''Running test: %s'' @ [nl], [S ''dir/t.bc''])]"
proof -
  have "(''b'', ''dir/t.bc'', Some (Errorf ''cmd.Start: %v'' (SysError ''no such file or directory'')))
      \<in> set (drop (length (runs world0))
          (runs
            \<lparr>Stdout = [(''Running test: %s'' @ [nl], [S ''dir/t.bc''])],
             Stderr = [Log_Fatalf (''runTest(t2=%s, test=%s): %v'',
               [S ''b'', S ''dir/t.bc'',
                E (Errorf ''cmd.Start: %v'' (SysError ''no such file or directory''))])],
             started = [llc ''a''],
             runs = [(''a'', ''dir/t.bc'', None),
                     (''b'', ''dir/t.bc'',
                      Some (Errorf ''cmd.Start: %v'' (SysError ''no such file or directory'')))]\<rparr>))"
    by (simp add: world0_def)
  note t = failed_run_is_fatal[OF main_env_no_t2 this]
  show ?thesis
    unfolding main_env_no_t2 snd_conv
    using t[THEN conjunct2, THEN conjunct1] by simp
qed

end
